theory Spec2Isabelle
  imports Complex_Main
begin

section \<open>Python values and exceptions\<close>

text \<open>
  The values that reach the functions of \<^verbatim>\<open>pygts\<close> are the ones \<^verbatim>\<open>response.json()\<close>
  produces: \<^verbatim>\<open>None\<close>, booleans, integers, floats, strings, lists and dictionaries with
  string keys. A string is the list of its UTF-8 bytes. A float is modelled by its
  (finite) numeric value. A dictionary is the list of its items in insertion order;
  a Python dictionary holds each key once, and \<open>map_of\<close> reads the binding of a key.
\<close>

datatype py_value =
    PNone
  | PBool bool
  | PInt int
  | PFloat rat
  | PStr string
  | PList "py_value list"
  | PDict "(string \<times> py_value) list"

text \<open>
  Exception classes that the handlers of the package test for, or that the modelled
  code raises itself; any other class is \<open>OtherClass\<close> with its name. An exception
  object carries the classes it is an instance of (its method resolution order) and
  the text \<^verbatim>\<open>str(e)\<close>.
\<close>

datatype exc_class =
    BaseException
  | Exception
  | RequestException
  | KeyError
  | IndexError
  | ValueError
  | TypeError
  | AttributeError
  | OtherClass string

datatype py_exc = PyExc (exc_mro: "exc_class list") (exc_str: string)

definition isinstance_exc :: "py_exc \<Rightarrow> exc_class \<Rightarrow> bool" where
  "isinstance_exc e c = (c \<in> set (exc_mro e))"

fun truthy :: "py_value \<Rightarrow> bool" where
  "truthy PNone = False"
| "truthy (PBool b) = b"
| "truthy (PInt i) = (i \<noteq> 0)"
| "truthy (PFloat r) = (r \<noteq> 0)"
| "truthy (PStr s) = (s \<noteq> [])"
| "truthy (PList xs) = (xs \<noteq> [])"
| "truthy (PDict kv) = (kv \<noteq> [])"

fun is_list :: "py_value \<Rightarrow> bool" where
  "is_list (PList xs) = True"
| "is_list v = False"

fun is_dict :: "py_value \<Rightarrow> bool" where
  "is_dict (PDict kv) = True"
| "is_dict v = False"

fun type_name :: "py_value \<Rightarrow> string" where
  "type_name PNone = ''NoneType''"
| "type_name (PBool b) = ''bool''"
| "type_name (PInt i) = ''int''"
| "type_name (PFloat r) = ''float''"
| "type_name (PStr s) = ''str''"
| "type_name (PList xs) = ''list''"
| "type_name (PDict kv) = ''dict''"

definition quoted :: "string \<Rightarrow> string" where
  "quoted s = CHR 0x27 # s @ [CHR 0x27]"

definition attribute_error :: "py_value \<Rightarrow> string \<Rightarrow> py_exc" where
  "attribute_error v attr =
     PyExc [AttributeError, Exception, BaseException]
       (quoted (type_name v) @ '' object has no attribute '' @ quoted attr)"

definition index_error :: "string \<Rightarrow> py_exc" where
  "index_error msg =
     PyExc [IndexError, OtherClass ''LookupError'', Exception, BaseException] msg"

definition type_error :: "string \<Rightarrow> py_exc" where
  "type_error msg = PyExc [TypeError, Exception, BaseException] msg"

definition value_error :: "string \<Rightarrow> py_exc" where
  "value_error msg = PyExc [ValueError, Exception, BaseException] msg"

text \<open>\<^verbatim>\<open>x.get(key, default)\<close>: defined on dictionaries only.\<close>

fun dict_get :: "py_value \<Rightarrow> string \<Rightarrow> py_value \<Rightarrow> py_exc + py_value" where
  "dict_get (PDict kv) key dflt =
     Inr (case map_of kv key of Some v \<Rightarrow> v | None \<Rightarrow> dflt)"
| "dict_get v key dflt = Inl (attribute_error v ''get'')"

text \<open>\<^verbatim>\<open>xs[i]\<close> for a position \<open>i \<ge> 0\<close>.\<close>

definition list_getitem :: "'a list \<Rightarrow> nat \<Rightarrow> py_exc + 'a" where
  "list_getitem xs i =
     (if i < length xs then Inr (xs ! i) else Inl (index_error ''list index out of range''))"

section \<open>The transport\<close>

text \<open>
  \<^verbatim>\<open>requests\<close> is not part of the package: the transport is a parameter. A call
  \<^verbatim>\<open>requests.get(url, timeout=10)\<close> raises or returns a response; on a response,
  \<^verbatim>\<open>raise_for_status()\<close> raises or returns, and \<^verbatim>\<open>json()\<close> raises or returns the parsed
  body.
\<close>

record response =
  raise_for_status :: "py_exc option"
  json :: "py_exc + py_value"

type_synonym transport = "string \<Rightarrow> py_exc + response"

definition url_for :: "string \<Rightarrow> string \<Rightarrow> string" where
  "url_for genus species =
     ''https://data.bgci.org/treesearch/genus/'' @ genus @ ''/species/'' @ species"

text \<open>
  The exception the transport raises into \<^verbatim>\<open>request_data\<close> or \<^verbatim>\<open>species_exists\<close>, if
  any: from the call itself (a timeout, a connection or DNS failure), from
  \<^verbatim>\<open>raise_for_status()\<close> (a non-success status) or from \<^verbatim>\<open>json()\<close> (a body that does
  not parse).
\<close>

definition transport_fault :: "transport \<Rightarrow> string \<Rightarrow> string \<Rightarrow> py_exc option" where
  "transport_fault requests_get genus species =
     (case requests_get (url_for genus species) of
        Inl e \<Rightarrow> Some e
      | Inr resp \<Rightarrow>
          (case raise_for_status resp of
             Some e \<Rightarrow> Some e
           | None \<Rightarrow> (case json resp of Inl e \<Rightarrow> Some e | Inr body \<Rightarrow> None)))"

section \<open>data\_fetcher.species\_exists\<close>

text \<open>The body of the \<^verbatim>\<open>try\<close> block: \<open>Inl e\<close> when it raises \<open>e\<close>.\<close>

definition species_exists_try :: "transport \<Rightarrow> string \<Rightarrow> string \<Rightarrow> py_exc + bool" where
  "species_exists_try requests_get genus species =
     (case requests_get (url_for genus species) of
        Inl e \<Rightarrow> Inl e
      | Inr response \<Rightarrow>
          (case raise_for_status response of
             Some e \<Rightarrow> Inl e
           | None \<Rightarrow>
               (case json response of
                  Inl e \<Rightarrow> Inl e
                | Inr response_dict \<Rightarrow>
                    (case dict_get response_dict ''results'' (PList []) of
                       Inl e \<Rightarrow> Inl e
                     | Inr results \<Rightarrow>
                         Inr (truthy results \<and> is_list results \<and>
                              (case results of PList xs \<Rightarrow> length xs > 0 | _ \<Rightarrow> False))))))"

text \<open>\<^verbatim>\<open>except Exception: return False\<close>; anything else propagates.\<close>

definition species_exists :: "transport \<Rightarrow> string \<Rightarrow> string \<Rightarrow> py_exc + bool" where
  "species_exists requests_get genus species =
     (case species_exists_try requests_get genus species of
        Inr b \<Rightarrow> Inr b
      | Inl e \<Rightarrow> if isinstance_exc e Exception then Inr False else Inl e)"

section \<open>data\_fetcher.request\_data\<close>

definition request_data_try :: "transport \<Rightarrow> string \<Rightarrow> string \<Rightarrow> py_exc + py_value" where
  "request_data_try requests_get genus species =
     (case requests_get (url_for genus species) of
        Inl e \<Rightarrow> Inl e
      | Inr response \<Rightarrow>
          (case raise_for_status response of
             Some e \<Rightarrow> Inl e
           | None \<Rightarrow>
               (case json response of
                  Inl e \<Rightarrow> Inl e
                | Inr response_dict \<Rightarrow>
                    (case dict_get response_dict ''results'' (PList []) of
                       Inl e \<Rightarrow> Inl e
                     | Inr results \<Rightarrow>
                         if \<not> truthy results \<or> \<not> is_list results then Inr PNone
                         else
                           (case (case results of PList xs \<Rightarrow> list_getitem xs 0
                                  | _ \<Rightarrow> Inl (type_error ''not subscriptable'')) of
                              Inl e \<Rightarrow> Inl e
                            | Inr first_result \<Rightarrow>
                                if \<not> is_dict first_result then Inr PNone
                                else
                                  (case dict_get first_result ''TSGeolinks'' (PList []) of
                                     Inl e \<Rightarrow> Inl e
                                   | Inr countries_dicts \<Rightarrow>
                                       Inr (if truthy countries_dicts then countries_dicts
                                            else PNone)))))))"

text \<open>
  Only a non-empty list reaches \<^verbatim>\<open>results[0]\<close>: the test before it returns for every
  other value, so the other branch of the subscript is never taken.
\<close>

text \<open>
  The three handlers, in the order of the source. The result is the returned value
  together with the lines printed; an exception that no handler matches propagates.
\<close>

definition diagnostic :: "string \<Rightarrow> string \<Rightarrow> string \<Rightarrow> py_exc \<Rightarrow> string" where
  "diagnostic prefix genus species e =
     prefix @ '' for '' @ genus @ '' '' @ species @ '': '' @ exc_str e"

definition request_data ::
  "transport \<Rightarrow> string \<Rightarrow> string \<Rightarrow> py_exc + (py_value \<times> string list)" where
  "request_data requests_get genus species =
     (case request_data_try requests_get genus species of
        Inr v \<Rightarrow> Inr (v, [])
      | Inl e \<Rightarrow>
          if isinstance_exc e RequestException
          then Inr (PNone, [diagnostic ''Request error'' genus species e])
          else if isinstance_exc e KeyError \<or> isinstance_exc e IndexError \<or>
                  isinstance_exc e ValueError \<or> isinstance_exc e TypeError
          then Inr (PNone, [diagnostic ''Data parsing error'' genus species e])
          else if isinstance_exc e Exception
          then Inr (PNone, [diagnostic ''Unexpected error'' genus species e])
          else Inl e)"

section \<open>data\_fetcher.fetch\_species\_data\_parallel\<close>

text \<open>
  A \<^verbatim>\<open>DataFrame\<close> is the list of its rows in order. \<^verbatim>\<open>iterrows()\<close> yields each row
  with its index label, which is what the source binds to \<^verbatim>\<open>idx\<close>; the default index
  of a frame labels the rows \<open>0, 1, 2, \<dots>\<close>, any other index is possible.
\<close>

datatype index_label = IntLabel int | StrLabel string

record df_row =
  label :: index_label
  Genus :: string
  Species :: string

text \<open>\<^verbatim>\<open>xs[idx] = v\<close> on a list: a negative integer counts from the end.\<close>

fun list_setitem :: "'a list \<Rightarrow> index_label \<Rightarrow> 'a \<Rightarrow> py_exc + 'a list" where
  "list_setitem xs (IntLabel i) v =
     (let n = int (length xs); j = (if i < 0 then i + n else i)
      in if 0 \<le> j \<and> j < n then Inr (xs[nat j := v])
         else Inl (index_error ''list assignment index out of range''))"
| "list_setitem xs (StrLabel s) v =
     Inl (type_error ''list indices must be integers or slices, not str'')"

record fetch_state =
  results :: "py_value list"
  failed_count :: nat
  success_count :: nat

definition error_dict :: "py_exc \<Rightarrow> py_value" where
  "error_dict e = PDict [(''error'', PStr (exc_str e))]"

text \<open>
  One iteration of the loop over \<^verbatim>\<open>as_completed\<close>, for the future stored under \<open>idx\<close>
  whose \<^verbatim>\<open>result()\<close> returns (\<open>Inr\<close>) or raises (\<open>Inl\<close>). An exception raised
  inside the handler leaves the function.
\<close>

definition store_result ::
  "fetch_state \<Rightarrow> index_label \<Rightarrow> py_exc + py_value \<Rightarrow> py_exc + fetch_state" where
  "store_result st idx future_result =
     (case (case future_result of
              Inl e \<Rightarrow> Inl e
            | Inr result \<Rightarrow>
                (case list_setitem (results st) idx result of
                   Inl e \<Rightarrow> Inl e
                 | Inr rs \<Rightarrow>
                     Inr (if result = PNone
                          then st\<lparr>results := rs, failed_count := failed_count st + 1\<rparr>
                          else st\<lparr>results := rs, success_count := success_count st + 1\<rparr>))) of
        Inr st' \<Rightarrow> Inr st'
      | Inl e \<Rightarrow>
          if isinstance_exc e Exception
          then (case list_setitem (results st) idx (error_dict e) of
                  Inl e' \<Rightarrow> Inl e'
                | Inr rs \<Rightarrow> Inr (st\<lparr>results := rs, failed_count := failed_count st + 1\<rparr>))
          else Inl e)"

fun collect ::
  "(index_label \<times> (py_exc + py_value)) list \<Rightarrow> fetch_state \<Rightarrow> py_exc + fetch_state" where
  "collect [] st = Inr st"
| "collect ((idx, future_result) # rest) st =
     (case store_result st idx future_result of
        Inl e \<Rightarrow> Inl e
      | Inr st' \<Rightarrow> collect rest st')"

text \<open>
  \<open>lookup\<close> is what the call \<^verbatim>\<open>request_data(genus, species)\<close> submitted to the pool does
  in its worker: it returns a value or raises. \<open>completion\<close> is the order in which
  \<^verbatim>\<open>as_completed\<close> yields the futures, as positions of their rows: a permutation of
  \<open>[0..<length species_df]\<close>. \<^verbatim>\<open>ThreadPoolExecutor\<close> refuses a pool without workers.
  The result is the returned list with the two counts of the summary line.
\<close>

definition fetch_species_data_parallel ::
  "(string \<Rightarrow> string \<Rightarrow> py_exc + py_value) \<Rightarrow> ('a df_row_scheme) list \<Rightarrow> int \<Rightarrow> nat list
     \<Rightarrow> py_exc + (py_value list \<times> nat \<times> nat)" where
  "fetch_species_data_parallel lookup species_df max_workers completion =
     (if max_workers \<le> 0 then Inl (value_error ''max_workers must be greater than 0'')
      else
        let future_to_index =
              map (\<lambda>row. (label row, lookup (Genus row) (Species row))) species_df
        in (case collect (map (\<lambda>p. future_to_index ! p) completion)
                   \<lparr>results = replicate (length species_df) PNone,
                    failed_count = 0, success_count = 0\<rparr> of
              Inl e \<Rightarrow> Inl e
            | Inr st \<Rightarrow> Inr (results st, success_count st, failed_count st)))"

definition default_index :: "('a df_row_scheme) list \<Rightarrow> bool" where
  "default_index species_df =
     (map label species_df = map (\<lambda>p. IntLabel (int p)) [0..<length species_df])"

definition is_completion :: "nat list \<Rightarrow> nat \<Rightarrow> bool" where
  "is_completion completion n = (distinct completion \<and> set completion = {0..<n})"

text \<open>
  The reference the parallel fetcher is compared with, in the words of the
  specification: the lookups of the rows, taken one after the other in input order.
\<close>

definition sequential_lookups ::
  "(string \<Rightarrow> string \<Rightarrow> py_exc + py_value) \<Rightarrow> ('a df_row_scheme) list
     \<Rightarrow> (py_exc + py_value) list" where
  "sequential_lookups lookup species_df =
     map (\<lambda>row. lookup (Genus row) (Species row)) species_df"

text \<open>What the slot of an item holds after its future was collected.\<close>

definition slot_value :: "py_exc + py_value \<Rightarrow> py_value" where
  "slot_value r = (case r of Inr v \<Rightarrow> v | Inl e \<Rightarrow> error_dict e)"

text \<open>
  A label that \<^verbatim>\<open>xs[idx] = v\<close> accepts on a list of length \<open>n\<close>; a future whose exception,
  if it raises one, is caught by \<^verbatim>\<open>except Exception\<close>; and a future that counts as
  successful in the summary.
\<close>

fun valid_label :: "nat \<Rightarrow> index_label \<Rightarrow> bool" where
  "valid_label n (IntLabel i) = (- int n \<le> i \<and> i < int n)"
| "valid_label n (StrLabel s) = False"

definition catchable :: "py_exc + py_value \<Rightarrow> bool" where
  "catchable r = (case r of Inl e \<Rightarrow> isinstance_exc e Exception | Inr v \<Rightarrow> True)"

definition is_success :: "py_exc + py_value \<Rightarrow> bool" where
  "is_success r = (case r of Inl e \<Rightarrow> False | Inr v \<Rightarrow> v \<noteq> PNone)"

section \<open>visualizer.extract\_locations\<close>

text \<open>
  Python compares the numbers of different types by value (\<^verbatim>\<open>True == 1 == 1.0\<close>);
  every other pair of hashable values from a JSON body is equal when it is the same
  value. Lists and dictionaries are not hashable.
\<close>

fun num_value :: "py_value \<Rightarrow> rat option" where
  "num_value (PBool b) = Some (if b then 1 else 0)"
| "num_value (PInt i) = Some (of_int i)"
| "num_value (PFloat r) = Some r"
| "num_value v = None"

definition py_eq :: "py_value \<Rightarrow> py_value \<Rightarrow> bool" where
  "py_eq a b =
     (case (num_value a, num_value b) of
        (Some x, Some y) \<Rightarrow> x = y
      | (None, None) \<Rightarrow> a = b
      | _ \<Rightarrow> False)"

fun hashable :: "py_value \<Rightarrow> bool" where
  "hashable (PList xs) = False"
| "hashable (PDict kv) = False"
| "hashable v = True"

text \<open>
  A Python set is kept as the list of its members in insertion order;
  \<^verbatim>\<open>s.add(x)\<close> leaves the set as it is when a member equal to \<open>x\<close> is there.
\<close>

definition set_add :: "py_value list \<Rightarrow> py_value \<Rightarrow> py_exc + py_value list" where
  "set_add s x =
     (if \<not> hashable x
      then Inl (type_error (''unhashable type: '' @ quoted (type_name x)))
      else if list_ex (py_eq x) s then Inr s else Inr (s @ [x]))"

fun extract_loop ::
  "py_value list \<Rightarrow> py_value list \<Rightarrow> (py_value \<times> py_value) list
     \<Rightarrow> py_exc + (py_value list \<times> (py_value \<times> py_value) list)" where
  "extract_loop [] countries_only country_province_pairs =
     Inr (countries_only, country_province_pairs)"
| "extract_loop (entry # rest) countries_only country_province_pairs =
     (case dict_get entry ''country'' PNone of
        Inl e \<Rightarrow> Inl e
      | Inr country \<Rightarrow>
          (case dict_get entry ''province'' PNone of
             Inl e \<Rightarrow> Inl e
           | Inr province \<Rightarrow>
               if truthy country then
                 if truthy province
                 then extract_loop rest countries_only
                        (country_province_pairs @ [(country, province)])
                 else (case set_add countries_only country of
                         Inl e \<Rightarrow> Inl e
                       | Inr countries_only' \<Rightarrow>
                           extract_loop rest countries_only' country_province_pairs)
               else extract_loop rest countries_only country_province_pairs))"

text \<open>
  \<^verbatim>\<open>list(countries_only)\<close> lists the members of the set in an order Python does not
  fix: the model returns the set of the members.
\<close>

definition extract_locations ::
  "py_value list \<Rightarrow> py_exc + (py_value set \<times> (py_value \<times> py_value) list)" where
  "extract_locations geo_data =
     (case extract_loop geo_data [] [] of
        Inl e \<Rightarrow> Inl e
      | Inr (countries_only, country_province_pairs) \<Rightarrow>
          Inr (set countries_only, country_province_pairs))"

text \<open>
  A location record as the API documents it: a dictionary whose \<^verbatim>\<open>country\<close> and
  \<^verbatim>\<open>province\<close>, when present, are strings or \<^verbatim>\<open>null\<close>. \<open>country_of\<close> and
  \<open>province_of\<close> read the two fields the way the specification speaks of them:
  \<open>None\<close> for a field that is absent, \<^verbatim>\<open>null\<close> or empty.
\<close>

fun text_field :: "py_value option \<Rightarrow> bool" where
  "text_field None = True"
| "text_field (Some PNone) = True"
| "text_field (Some (PStr s)) = True"
| "text_field (Some v) = False"

fun location_record :: "py_value \<Rightarrow> bool" where
  "location_record (PDict kv) =
     (text_field (map_of kv ''country'') \<and> text_field (map_of kv ''province''))"
| "location_record v = False"

fun field_of :: "string \<Rightarrow> py_value \<Rightarrow> string option" where
  "field_of key (PDict kv) =
     (case map_of kv key of
        Some (PStr s) \<Rightarrow> if s = [] then None else Some s
      | _ \<Rightarrow> None)"
| "field_of key v = None"

definition country_of :: "py_value \<Rightarrow> string option" where
  "country_of entry = field_of ''country'' entry"

definition province_of :: "py_value \<Rightarrow> string option" where
  "province_of entry = field_of ''province'' entry"

definition whole_country :: "py_value \<Rightarrow> py_value option" where
  "whole_country entry =
     (case (country_of entry, province_of entry) of
        (Some c, None) \<Rightarrow> Some (PStr c)
      | _ \<Rightarrow> None)"

definition country_province :: "py_value \<Rightarrow> (py_value \<times> py_value) option" where
  "country_province entry =
     (case (country_of entry, province_of entry) of
        (Some c, Some p) \<Rightarrow> Some (PStr c, PStr p)
      | _ \<Rightarrow> None)"

section \<open>utils.load\_species\_data\<close>

text \<open>\<^verbatim>\<open>s.split(sep)\<close> for a separator of one character: a cut at every occurrence.\<close>

fun split_sep :: "char \<Rightarrow> string \<Rightarrow> string list" where
  "split_sep sep [] = [[]]"
| "split_sep sep (c # cs) =
     (if c = sep then [] # split_sep sep cs
      else (case split_sep sep cs of
              w # ws \<Rightarrow> (c # w) # ws
            | [] \<Rightarrow> [[c]]))"

text \<open>\<^verbatim>\<open>Series.apply(f)\<close>: the first exception of \<open>f\<close> leaves the call.\<close>

fun apply_series :: "('a \<Rightarrow> py_exc + 'b) \<Rightarrow> 'a list \<Rightarrow> py_exc + 'b list" where
  "apply_series f [] = Inr []"
| "apply_series f (x # xs) =
     (case f x of
        Inl e \<Rightarrow> Inl e
      | Inr y \<Rightarrow> (case apply_series f xs of Inl e \<Rightarrow> Inl e | Inr ys \<Rightarrow> Inr (y # ys)))"

record taxon_row = df_row +
  TaxonName :: string

text \<open>
  The input is the \<^verbatim>\<open>TaxonName\<close> column of the file read by \<^verbatim>\<open>pandas.read_csv\<close>, each
  cell as \<^verbatim>\<open>str(x)\<close> gives it; the frame read has the default index.
\<close>

definition load_species_data :: "string list \<Rightarrow> py_exc + taxon_row list" where
  "load_species_data taxon_names =
     (case apply_series (\<lambda>x. list_getitem (split_sep (CHR '' '') x) 0) taxon_names of
        Inl e \<Rightarrow> Inl e
      | Inr genus \<Rightarrow>
          (case apply_series (\<lambda>x. list_getitem (split_sep (CHR '' '') x) 1) taxon_names of
             Inl e \<Rightarrow> Inl e
           | Inr species \<Rightarrow>
               Inr (map (\<lambda>p. \<lparr>label = IntLabel (int p), Genus = genus ! p,
                               Species = species ! p, TaxonName = taxon_names ! p\<rparr>)
                      [0..<length taxon_names])))"

text \<open>
  The tokens of a name in the words of the specification: the maximal runs of
  characters that are not whitespace.
\<close>

definition is_space :: "char \<Rightarrow> bool" where
  "is_space c = (c \<in> set [CHR '' '', CHR 0x09, CHR 0x0A, CHR 0x0B, CHR 0x0C, CHR 0x0D])"

fun tokens_from :: "string \<Rightarrow> string \<Rightarrow> string list" where
  "tokens_from cur [] = (if cur = [] then [] else [cur])"
| "tokens_from cur (c # cs) =
     (if is_space c
      then (if cur = [] then tokens_from [] cs else cur # tokens_from [] cs)
      else tokens_from (cur @ [c]) cs)"

definition whitespace_tokens :: "string \<Rightarrow> string list" where
  "whitespace_tokens s = tokens_from [] s"

section \<open>Example inputs\<close>

text \<open>A transport that answers every request with status 200 and the given body.\<close>

definition respond :: "py_value \<Rightarrow> transport" where
  "respond body = (\<lambda>url. Inr \<lparr>raise_for_status = None, json = Inr body\<rparr>)"


definition two_results :: "(string \<times> py_value) list" where
  "two_results =
     [(''results'',
       PList [PDict [(''TSGeolinks'',
                PList [PDict [(''country'', PStr ''Brazil''), (''province'', PStr ''Bahia''),
                              (''uncertainty'', PNone)]])],
              PDict [(''TSGeolinks'', PList [PDict [(''country'', PStr ''France'')]])]])]"


text \<open>Location records: the example of the documentation, and a country listed twice.\<close>

definition brazil_france :: "py_value list" where
  "brazil_france =
     [PDict [(''country'', PStr ''Brazil''), (''province'', PStr ''Bahia'')],
      PDict [(''country'', PStr ''Brazil''),
             (''province'', PStr (''Cear'' @ [CHR 0xC3, CHR 0xA1]))],
      PDict [(''country'', PStr ''France''), (''province'', PNone)]]"

definition france_twice :: "py_value list" where
  "france_twice =
     [PDict [(''country'', PStr ''France''), (''province'', PNone)],
      PDict [(''country'', PStr ''France''), (''province'', PStr ''Corse'')]]"

text \<open>
  Lookups in the manner of the package's tests, and three frames: one with the default
  index, one whose two rows carry the labels 1 and 0, and one whose only row carries
  the label 5 (as a frame keeps its labels when rows are filtered out).
\<close>

definition mock_response :: "string \<Rightarrow> string \<Rightarrow> py_exc + py_value" where
  "mock_response genus species =
     (if genus = ''Abarema'' then Inr (PList [PDict [(''country'', PStr ''Brazil'')]])
      else if genus = ''Abies'' then Inr (PList [PDict [(''country'', PStr ''France'')]])
      else Inr PNone)"

definition mock_failing :: "string \<Rightarrow> string \<Rightarrow> py_exc + py_value" where
  "mock_failing genus species =
     (if genus = ''Abarema''
      then Inl (PyExc [Exception, BaseException] ''Unexpected error'')
      else mock_response genus species)"

definition relabelled_df :: "df_row list" where
  "relabelled_df =
     [\<lparr>label = IntLabel 1, Genus = ''Abarema'', Species = ''cochliocarpos''\<rparr>,
      \<lparr>label = IntLabel 0, Genus = ''Abies'', Species = ''alba''\<rparr>]"

definition filtered_df :: "df_row list" where
  "filtered_df = [\<lparr>label = IntLabel 5, Genus = ''Abarema'', Species = ''cochliocarpos''\<rparr>]"

definition sample_df :: "df_row list" where
  "sample_df =
     [\<lparr>label = IntLabel 0, Genus = ''Abarema'', Species = ''cochliocarpos''\<rparr>,
      \<lparr>label = IntLabel 1, Genus = ''Abies'', Species = ''alba''\<rparr>,
      \<lparr>label = IntLabel 2, Genus = ''InvalidGenus'', Species = ''invalid''\<rparr>]"

text \<open>An exception that is not an instance of \<^verbatim>\<open>Exception\<close>.\<close>

definition keyboard_interrupt :: py_exc where
  "keyboard_interrupt = PyExc [OtherClass ''KeyboardInterrupt'', BaseException] []"

section \<open>Properties of request\_data and species\_exists\<close>

lemma dict_get_not_dict:
  "\<not> is_dict v \<Longrightarrow> dict_get v key dflt = Inl (attribute_error v ''get'')"
  by (cases v) simp_all

lemma is_dict_conv: "is_dict v \<longleftrightarrow> (\<exists>kv. v = PDict kv)"
  by (cases v) simp_all

lemma is_list_conv: "is_list v \<longleftrightarrow> (\<exists>xs. v = PList xs)"
  by (cases v) simp_all



lemma transport_fault_None:
  "transport_fault requests_get genus species = None \<longleftrightarrow>
   (\<exists>resp body. requests_get (url_for genus species) = Inr resp \<and>
      raise_for_status resp = None \<and> json resp = Inr body)"
  by (simp add: transport_fault_def split: sum.split option.split)

lemma request_data_try_fault:
  "transport_fault requests_get genus species = Some e \<Longrightarrow>
   request_data_try requests_get genus species = Inl e"
  by (auto simp add: transport_fault_def request_data_try_def
      split: sum.splits option.splits)


lemma request_data_try_body:
  assumes "requests_get (url_for genus species) = Inr resp"
    and "raise_for_status resp = None" and "json resp = Inr (PDict kv)"
  shows "request_data_try requests_get genus species =
     Inr (case map_of kv ''results'' of
            Some (PList (PDict d # rest)) \<Rightarrow>
              (case map_of d ''TSGeolinks'' of
                 Some t \<Rightarrow> if truthy t then t else PNone
               | None \<Rightarrow> PNone)
          | _ \<Rightarrow> PNone)"
  using assms
  by (simp add: request_data_try_def list_getitem_def
      split: option.split py_value.split list.split)

lemma species_exists_try_fault:
  "transport_fault requests_get genus species = Some e \<Longrightarrow>
   species_exists_try requests_get genus species = Inl e"
  by (auto simp add: transport_fault_def species_exists_try_def
      split: sum.splits option.splits)

lemma species_exists_try_not_dict:
  assumes "requests_get (url_for genus species) = Inr resp"
    and "raise_for_status resp = None" and "json resp = Inr body" and "\<not> is_dict body"
  shows "species_exists_try requests_get genus species = Inl (attribute_error body ''get'')"
  using assms by (simp add: species_exists_try_def dict_get_not_dict)

lemma species_exists_try_body:
  assumes "requests_get (url_for genus species) = Inr resp"
    and "raise_for_status resp = None" and "json resp = Inr (PDict kv)"
  shows "species_exists_try requests_get genus species =
     Inr (\<exists>x xs. map_of kv ''results'' = Some (PList (x # xs)))"
  using assms
  by (simp add: species_exists_try_def neq_Nil_conv
      split: option.split py_value.split)


lemma request_data_of_try:
  "request_data_try requests_get genus species = Inr v \<Longrightarrow>
   request_data requests_get genus species = Inr (v, [])"
  by (simp add: request_data_def)



text \<open>
  Claim C3. On a response whose body parses to a dictionary, \<^verbatim>\<open>request_data\<close> returns
  \<^verbatim>\<open>None\<close> and prints nothing when \<^verbatim>\<open>results\<close> is absent, is not a list or is the
  empty list, when the first element of \<^verbatim>\<open>results\<close> is not a dictionary, and when
  that element has no \<^verbatim>\<open>TSGeolinks\<close>. Otherwise it returns the \<^verbatim>\<open>TSGeolinks\<close> value of
  the first element as it is, unless that value is falsy (for a sequence: empty),
  where it returns \<^verbatim>\<open>None\<close>. The elements of \<^verbatim>\<open>results\<close> after the first play no part.
\<close>

theorem request_data_results:
  assumes "requests_get (url_for genus species) = Inr resp"
    and "raise_for_status resp = None" and "json resp = Inr (PDict kv)"
  shows "(map_of kv ''results'' = None \<longrightarrow>
            request_data requests_get genus species = Inr (PNone, []))
       \<and> (\<forall>r. map_of kv ''results'' = Some r \<and> (\<not> is_list r \<or> r = PList []) \<longrightarrow>
            request_data requests_get genus species = Inr (PNone, []))
       \<and> (\<forall>first rest. map_of kv ''results'' = Some (PList (first # rest)) \<longrightarrow>
            (\<not> is_dict first \<longrightarrow>
               request_data requests_get genus species = Inr (PNone, []))
          \<and> (\<forall>d. first = PDict d \<longrightarrow>
               (map_of d ''TSGeolinks'' = None \<longrightarrow>
                  request_data requests_get genus species = Inr (PNone, []))
             \<and> (\<forall>t. map_of d ''TSGeolinks'' = Some t \<longrightarrow>
                  request_data requests_get genus species =
                    Inr (if truthy t then t else PNone, []))))"
proof -
  note body = request_data_try_body [of requests_get genus species resp kv, OF assms]
  have absent: "map_of kv ''results'' = None \<longrightarrow>
      request_data requests_get genus species = Inr (PNone, [])"
    using body by (simp add: request_data_def)
  have no_list: "\<forall>r. map_of kv ''results'' = Some r \<and> (\<not> is_list r \<or> r = PList []) \<longrightarrow>
      request_data requests_get genus species = Inr (PNone, [])"
  proof (intro allI impI)
    fix r
    assume "map_of kv ''results'' = Some r \<and> (\<not> is_list r \<or> r = PList [])"
    then show "request_data requests_get genus species = Inr (PNone, [])"
      using body by (cases r) (auto simp add: request_data_def)
  qed
  have first: "\<forall>first rest. map_of kv ''results'' = Some (PList (first # rest)) \<longrightarrow>
            (\<not> is_dict first \<longrightarrow>
               request_data requests_get genus species = Inr (PNone, []))
          \<and> (\<forall>d. first = PDict d \<longrightarrow>
               (map_of d ''TSGeolinks'' = None \<longrightarrow>
                  request_data requests_get genus species = Inr (PNone, []))
             \<and> (\<forall>t. map_of d ''TSGeolinks'' = Some t \<longrightarrow>
                  request_data requests_get genus species =
                    Inr (if truthy t then t else PNone, [])))"
  proof (intro allI impI)
    fix first rest
    assume r: "map_of kv ''results'' = Some (PList (first # rest))"
    show "(\<not> is_dict first \<longrightarrow>
               request_data requests_get genus species = Inr (PNone, []))
          \<and> (\<forall>d. first = PDict d \<longrightarrow>
               (map_of d ''TSGeolinks'' = None \<longrightarrow>
                  request_data requests_get genus species = Inr (PNone, []))
             \<and> (\<forall>t. map_of d ''TSGeolinks'' = Some t \<longrightarrow>
                  request_data requests_get genus species =
                    Inr (if truthy t then t else PNone, [])))"
      using body r by (cases first) (simp_all add: request_data_def)
  qed
  from absent no_list first show ?thesis by blast
qed

theorem request_data_results_witness:
  "request_data (respond (PDict two_results)) ''Abarema'' ''cochliocarpos'' =
     Inr (PList [PDict [(''country'', PStr ''Brazil''), (''province'', PStr ''Bahia''),
                        (''uncertainty'', PNone)]], [])"
proof -
  have r: "respond (PDict two_results) (url_for ''Abarema'' ''cochliocarpos'') =
      Inr \<lparr>raise_for_status = None, json = Inr (PDict two_results)\<rparr>"
    by (simp add: respond_def)
  have k: "map_of two_results ''results'' =
      Some (PList (PDict [(''TSGeolinks'',
                PList [PDict [(''country'', PStr ''Brazil''), (''province'', PStr ''Bahia''),
                              (''uncertainty'', PNone)]])] #
              [PDict [(''TSGeolinks'', PList [PDict [(''country'', PStr ''France'')]])]]))"
    by (simp add: two_results_def)
  from request_data_results [of "respond (PDict two_results)" "''Abarema''"
      "''cochliocarpos''" "\<lparr>raise_for_status = None, json = Inr (PDict two_results)\<rparr>"
      two_results] r k
  show ?thesis by simp
qed




lemma species_exists_of_try:
  "species_exists_try requests_get genus species = Inr b \<Longrightarrow>
   species_exists requests_get genus species = Inr b"
  by (simp add: species_exists_def)




text \<open>
  Claim C10. \<^verbatim>\<open>species_exists\<close> returns \<^verbatim>\<open>True\<close> only when the response parsed to a
  dictionary whose \<^verbatim>\<open>results\<close> is a list with at least one element. When \<^verbatim>\<open>results\<close>
  is truthy and not a list, \<^verbatim>\<open>species_exists\<close> returns \<^verbatim>\<open>False\<close> and \<^verbatim>\<open>request_data\<close>
  on the same response returns \<^verbatim>\<open>None\<close>.
\<close>

theorem species_exists_needs_list:
  "(species_exists requests_get genus species = Inr True \<longrightarrow>
      (\<exists>resp kv x xs. requests_get (url_for genus species) = Inr resp \<and>
         raise_for_status resp = None \<and> json resp = Inr (PDict kv) \<and>
         map_of kv ''results'' = Some (PList (x # xs)))) \<and>
   (\<forall>resp kv r. requests_get (url_for genus species) = Inr resp \<and>
      raise_for_status resp = None \<and> json resp = Inr (PDict kv) \<and>
      map_of kv ''results'' = Some r \<and> truthy r \<and> \<not> is_list r \<longrightarrow>
      species_exists requests_get genus species = Inr False \<and>
      request_data requests_get genus species = Inr (PNone, []))"
proof (intro conjI impI allI)
  assume t: "species_exists requests_get genus species = Inr True"
  show "\<exists>resp kv x xs. requests_get (url_for genus species) = Inr resp \<and>
         raise_for_status resp = None \<and> json resp = Inr (PDict kv) \<and>
         map_of kv ''results'' = Some (PList (x # xs))"
  proof (cases "transport_fault requests_get genus species")
    case (Some e)
    from species_exists_try_fault [of requests_get genus species e] Some
    have "species_exists_try requests_get genus species = Inl e" by simp
    with t show ?thesis by (simp add: species_exists_def split: if_splits)
  next
    case None
    then obtain resp body where r: "requests_get (url_for genus species) = Inr resp"
      "raise_for_status resp = None" "json resp = Inr body"
      by (auto simp add: transport_fault_None)
    show ?thesis
    proof (cases "is_dict body")
      case False
      from species_exists_try_not_dict [of requests_get genus species resp body] r False
      have "species_exists_try requests_get genus species = Inl (attribute_error body ''get'')"
        by simp
      with t show ?thesis by (simp add: species_exists_def split: if_splits)
    next
      case True
      then obtain kv where kv: "body = PDict kv" by (auto simp add: is_dict_conv)
      from species_exists_try_body [of requests_get genus species resp kv] r kv
      have "species_exists_try requests_get genus species =
          Inr (\<exists>x xs. map_of kv ''results'' = Some (PList (x # xs)))" by simp
      with t have "\<exists>x xs. map_of kv ''results'' = Some (PList (x # xs))"
        by (simp add: species_exists_def)
      with r kv show ?thesis by blast
    qed
  qed
next
  fix resp kv r
  assume a: "requests_get (url_for genus species) = Inr resp \<and>
      raise_for_status resp = None \<and> json resp = Inr (PDict kv) \<and>
      map_of kv ''results'' = Some r \<and> truthy r \<and> \<not> is_list r"
  from species_exists_try_body [of requests_get genus species resp kv] a
  have "species_exists_try requests_get genus species = Inr False"
    by auto
  then show "species_exists requests_get genus species = Inr False"
    by (rule species_exists_of_try)
  from request_data_try_body [of requests_get genus species resp kv] a
  have "request_data_try requests_get genus species = Inr PNone"
    by (cases r) auto
  then show "request_data requests_get genus species = Inr (PNone, [])"
    by (rule request_data_of_try)
qed

theorem species_exists_needs_list_witness:
  "species_exists (respond (PDict [(''results'', PStr ''abc'')])) ''Abies'' ''alba'' = Inr False \<and>
   request_data (respond (PDict [(''results'', PStr ''abc'')])) ''Abies'' ''alba'' = Inr (PNone, [])"
proof -
  have "respond (PDict [(''results'', PStr ''abc'')]) (url_for ''Abies'' ''alba'') =
      Inr \<lparr>raise_for_status = None, json = Inr (PDict [(''results'', PStr ''abc'')])\<rparr> \<and>
    raise_for_status \<lparr>raise_for_status = None, json = Inr (PDict [(''results'', PStr ''abc'')])\<rparr> = None \<and>
    json \<lparr>raise_for_status = None, json = Inr (PDict [(''results'', PStr ''abc'')])\<rparr> =
      Inr (PDict [(''results'', PStr ''abc'')]) \<and>
    map_of [(''results'', PStr ''abc'')] ''results'' = Some (PStr ''abc'') \<and>
    truthy (PStr ''abc'') \<and> \<not> is_list (PStr ''abc'')"
    by (simp add: respond_def)
  with species_exists_needs_list [of "respond (PDict [(''results'', PStr ''abc'')])" "''Abies''" "''alba''"]
  show ?thesis by blast
qed

section \<open>Properties of extract\_locations\<close>

lemma py_eq_PStr: "py_eq (PStr s) b \<longleftrightarrow> b = PStr s"
  by (cases b) (auto simp add: py_eq_def)

lemma set_add_PStr: "set_add cs (PStr s) = Inr (if PStr s \<in> set cs then cs else cs @ [PStr s])"
  by (simp add: set_add_def list_ex_iff py_eq_PStr)

lemma text_field_cases:
  assumes "text_field f"
  obtains "f = None" | "f = Some PNone" | s where "f = Some (PStr s)"
  using assms by (cases f rule: text_field.cases) simp_all

lemma extract_loop_step:
  assumes "location_record entry"
  shows "extract_loop (entry # rest) cs ps =
     extract_loop rest
       (case whole_country entry of None \<Rightarrow> cs | Some c \<Rightarrow> if c \<in> set cs then cs else cs @ [c])
       (case country_province entry of None \<Rightarrow> ps | Some cp \<Rightarrow> ps @ [cp])"
proof -
  from assms obtain kv where kv: "entry = PDict kv"
    and c: "text_field (map_of kv ''country'')" and p: "text_field (map_of kv ''province'')"
    by (cases entry) simp_all
  from c p show ?thesis
    by (elim text_field_cases)
      (simp_all add: kv whole_country_def country_province_def country_of_def province_of_def
        set_add_PStr)
qed

lemma extract_loop_records:
  assumes "list_all location_record geo_data"
  shows "\<exists>cs'. extract_loop geo_data cs ps =
           Inr (cs', ps @ List.map_filter country_province geo_data) \<and>
         set cs' = set cs \<union> set (List.map_filter whole_country geo_data)"
  using assms
proof (induction geo_data arbitrary: cs ps)
  case Nil
  then show ?case by (simp add: map_filter_simps)
next
  case (Cons entry rest)
  then have e: "location_record entry" and r: "list_all location_record rest" by simp_all
  let ?cs = "case whole_country entry of None \<Rightarrow> cs
             | Some c \<Rightarrow> if c \<in> set cs then cs else cs @ [c]"
  let ?ps = "case country_province entry of None \<Rightarrow> ps | Some cp \<Rightarrow> ps @ [cp]"
  from Cons.IH [OF r, of ?cs ?ps] obtain cs' where
    1: "extract_loop rest ?cs ?ps = Inr (cs', ?ps @ List.map_filter country_province rest)"
    and 2: "set cs' = set ?cs \<union> set (List.map_filter whole_country rest)"
    by blast
  have 3: "?ps @ List.map_filter country_province rest =
      ps @ List.map_filter country_province (entry # rest)"
    by (simp add: map_filter_simps split: option.split)
  have 4: "set ?cs \<union> set (List.map_filter whole_country rest) =
      set cs \<union> set (List.map_filter whole_country (entry # rest))"
    by (auto simp add: map_filter_simps split: option.split)
  have s: "extract_loop (entry # rest) cs ps = extract_loop rest ?cs ?ps"
    by (rule extract_loop_step [OF e])
  have "extract_loop (entry # rest) cs ps =
      Inr (cs', ps @ List.map_filter country_province (entry # rest))"
    unfolding s 1 3 ..
  moreover have "set cs' = set cs \<union> set (List.map_filter whole_country (entry # rest))"
    unfolding 2 4 ..
  ultimately show ?case by blast
qed

lemma extract_locations_records:
  assumes "list_all location_record geo_data"
  shows "extract_locations geo_data =
     Inr (set (List.map_filter whole_country geo_data),
          List.map_filter country_province geo_data)"
  using extract_loop_records [OF assms, of "[]" "[]"]
  by (auto simp add: extract_locations_def)

text \<open>
  Claim C6. On a list of location records, \<^verbatim>\<open>extract_locations\<close> returns as countries the
  set of the countries of the records that have a non-empty country and no province
  (duplicates collapse in the set), and as pairs the list of (country, province) of the
  records that have a non-empty country and a non-empty province, in input order and
  with repetitions. A record whose country is absent, \<^verbatim>\<open>null\<close> or empty adds to neither.
  The empty list gives the empty set and the empty list; the Brazil and France example
  gives \<open>{France}\<close> and the two pairs of Brazil.
\<close>

theorem extract_locations_classifies:
  assumes "list_all location_record geo_data"
  shows "extract_locations geo_data =
     Inr (set (List.map_filter whole_country geo_data),
          List.map_filter country_province geo_data)"
proof -
  from extract_loop_records [OF assms, of "[]" "[]"] obtain cs' where
    loop: "extract_loop geo_data [] [] =
             Inr (cs', [] @ List.map_filter country_province geo_data)"
    and members: "set cs' = set [] \<union> set (List.map_filter whole_country geo_data)"
    by blast
  from loop have "extract_locations geo_data =
      Inr (set cs', List.map_filter country_province geo_data)"
    by (simp add: extract_locations_def)
  with members show ?thesis by simp
qed

theorem extract_locations_classifies_witness:
  "extract_locations [] = Inr ({}, []) \<and>
   extract_locations brazil_france =
     Inr ({PStr ''France''},
          [(PStr ''Brazil'', PStr ''Bahia''),
           (PStr ''Brazil'', PStr (''Cear'' @ [CHR 0xC3, CHR 0xA1]))])"
proof -
  have "list_all location_record []" by simp
  from extract_locations_classifies [OF this]
  have a: "extract_locations [] = Inr ({}, [])" by (simp add: map_filter_simps)
  have "list_all location_record brazil_france" by (simp add: brazil_france_def)
  from extract_locations_classifies [OF this]
  have "extract_locations brazil_france =
     Inr ({PStr ''France''},
          [(PStr ''Brazil'', PStr ''Bahia''),
           (PStr ''Brazil'', PStr (''Cear'' @ [CHR 0xC3, CHR 0xA1]))])"
    by (simp add: brazil_france_def map_filter_simps whole_country_def country_province_def
        country_of_def province_of_def)
  with a show ?thesis by simp
qed

text \<open>
  Claim C7 says that a country in the first result has no record with a province. This
  fails: a country listed once without and once with a province is in both results.
\<close>

theorem countries_only_with_province_counterexample:
  "extract_locations france_twice =
     Inr ({PStr ''France''}, [(PStr ''France'', PStr ''Corse'')]) \<and>
   country_of (france_twice ! 1) = Some ''France'' \<and>
   province_of (france_twice ! 1) = Some ''Corse''"
  by (simp add: france_twice_def extract_locations_def set_add_def country_of_def
      province_of_def)

text \<open>
  Claim C7, amended. Every country in the first result of \<^verbatim>\<open>extract_locations\<close> is the
  country of at least one input record that carries no province.
\<close>

theorem countries_only_has_whole_country_record:
  assumes "list_all location_record geo_data"
    and "extract_locations geo_data = Inr (countries_only, country_province_pairs)"
    and "c \<in> countries_only"
  shows "\<exists>entry \<in> set geo_data. \<exists>s. c = PStr s \<and> country_of entry = Some s \<and>
           province_of entry = None"
proof -
  from extract_locations_records [OF assms(1)] assms(2,3)
  have "c \<in> set (List.map_filter whole_country geo_data)" by simp
  then obtain entry where "entry \<in> set geo_data" and "whole_country entry = Some c"
    by (auto simp add: map_filter_def)
  then show ?thesis
    by (auto simp add: whole_country_def split: option.splits)
qed

theorem countries_only_has_whole_country_record_witness:
  "\<exists>entry \<in> set france_twice. \<exists>s. PStr ''France'' = PStr s \<and> country_of entry = Some s \<and>
           province_of entry = None"
proof -
  have 1: "list_all location_record france_twice" by (simp add: france_twice_def)
  have 2: "extract_locations france_twice =
     Inr ({PStr ''France''}, [(PStr ''France'', PStr ''Corse'')])"
    by (simp add: france_twice_def extract_locations_def set_add_def)
  have 3: "PStr ''France'' \<in> {PStr ''France''}" by simp
  from countries_only_has_whole_country_record [OF 1 2 3] show ?thesis .
qed

section \<open>Properties of load\_species\_data\<close>

text \<open>
  The fields of \<^verbatim>\<open>s.split(sep)\<close>: one more than the separators in \<open>s\<close>; the first is the
  text before the first separator, the second the text between the first separator and
  the second.
\<close>

lemma split_sep_not_Nil: "split_sep sep s \<noteq> []"
  by (induction s) (auto split: list.split)

lemma length_split_sep: "length (split_sep sep s) = Suc (length (filter (\<lambda>c. c = sep) s))"
  by (induction s) (auto split: list.split simp add: split_sep_not_Nil)

lemma split_sep_two: "2 \<le> length (split_sep sep s) \<longleftrightarrow> sep \<in> set s"
  by (simp add: length_split_sep filter_empty_conv Suc_le_eq numeral_2_eq_2)

lemma split_sep_first: "split_sep sep s ! 0 = takeWhile (\<lambda>c. c \<noteq> sep) s"
  by (induction s) (auto split: list.split simp add: split_sep_not_Nil)

lemma split_sep_second:
  "sep \<in> set s \<Longrightarrow>
   split_sep sep s ! 1 = takeWhile (\<lambda>c. c \<noteq> sep) (tl (dropWhile (\<lambda>c. c \<noteq> sep) s))"
proof (induction s)
  case Nil
  then show ?case by simp
next
  case (Cons c cs)
  show ?case
  proof (cases "c = sep")
    case True
    then show ?thesis using split_sep_first [of sep cs] by simp
  next
    case False
    with Cons show ?thesis
      by (cases "split_sep sep cs") (auto simp add: split_sep_not_Nil)
  qed
qed

lemma apply_series_getitem:
  "apply_series (\<lambda>x. list_getitem (f x) i) xs =
     (if list_all (\<lambda>x. i < length (f x)) xs then Inr (map (\<lambda>x. f x ! i) xs)
      else Inl (index_error ''list index out of range''))"
  by (induction xs) (simp_all add: list_getitem_def)




section \<open>Properties of fetch\_species\_data\_parallel\<close>

lemma list_setitem_length: "list_setitem xs idx v = Inr ys \<Longrightarrow> length ys = length xs"
  by (cases idx) (auto simp add: Let_def split: if_splits)

lemma store_result_length:
  "store_result st idx r = Inr st' \<Longrightarrow> length (results st') = length (results st)"
  by (auto simp add: store_result_def split: sum.splits if_splits
      dest: list_setitem_length)

lemma collect_length:
  "collect fs st = Inr st' \<Longrightarrow> length (results st') = length (results st)"
proof (induction fs arbitrary: st)
  case Nil
  then show ?case by simp
next
  case (Cons f fs)
  obtain idx r where f: "f = (idx, r)" by (cases f)
  from Cons.prems obtain st1 where 1: "store_result st idx r = Inr st1"
    and 2: "collect fs st1 = Inr st'"
    by (auto simp add: f split: sum.splits)
  from Cons.IH [OF 2] store_result_length [OF 1] show ?case by simp
qed

lemma fetch_length:
  "fetch_species_data_parallel lookup species_df max_workers completion = Inr (rs, s, f) \<Longrightarrow>
   length rs = length species_df"
  by (auto simp add: fetch_species_data_parallel_def Let_def split: if_splits sum.splits
      dest!: collect_length)

lemma list_setitem_valid:
  "valid_label (length xs) idx \<Longrightarrow> \<exists>ys. list_setitem xs idx v = Inr ys"
  by (cases idx) (auto simp add: Let_def)

lemma store_result_total:
  assumes "valid_label (length (results st)) idx" and "catchable r"
  shows "\<exists>st'. store_result st idx r = Inr st'"
proof (cases r)
  case (Inl e)
  with assms(2) have "isinstance_exc e Exception" by (simp add: catchable_def)
  with list_setitem_valid [OF assms(1), of "error_dict e"] Inl show ?thesis
    by (auto simp add: store_result_def)
next
  case (Inr v)
  with list_setitem_valid [OF assms(1), of v] show ?thesis
    by (auto simp add: store_result_def)
qed

lemma collect_total:
  assumes "list_all (\<lambda>f. valid_label (length (results st)) (fst f) \<and> catchable (snd f)) fs"
  shows "\<exists>st'. collect fs st = Inr st'"
  using assms
proof (induction fs arbitrary: st)
  case Nil
  then show ?case by simp
next
  case (Cons f fs)
  obtain idx r where f: "f = (idx, r)" by (cases f)
  from Cons.prems f have "valid_label (length (results st)) idx" "catchable r" by simp_all
  from store_result_total [OF this] obtain st1 where 1: "store_result st idx r = Inr st1" ..
  from store_result_length [OF 1] Cons.prems
  have "list_all (\<lambda>f. valid_label (length (results st1)) (fst f) \<and> catchable (snd f)) fs"
    by simp
  from Cons.IH [OF this] obtain st' where "collect fs st1 = Inr st'" ..
  with 1 f show ?case by simp
qed

lemma fetch_total:
  assumes "1 \<le> max_workers"
    and "list_all (\<lambda>row. valid_label (length species_df) (label row) \<and>
           catchable (lookup (Genus row) (Species row))) species_df"
    and "list_all (\<lambda>p. p < length species_df) completion"
  shows "\<exists>rs s f. fetch_species_data_parallel lookup species_df max_workers completion =
           Inr (rs, s, f)"
proof -
  let ?fs = "map (\<lambda>row. (label row, lookup (Genus row) (Species row))) species_df"
  let ?st = "\<lparr>results = replicate (length species_df) PNone, failed_count = 0,
              success_count = 0\<rparr>"
  have "list_all (\<lambda>f. valid_label (length (results ?st)) (fst f) \<and> catchable (snd f))
          (map (\<lambda>p. ?fs ! p) completion)"
    using assms(2,3) by (auto simp add: list_all_iff)
  from collect_total [OF this] obtain st' where
    "collect (map (\<lambda>p. ?fs ! p) completion) ?st = Inr st'" ..
  with assms(1) show ?thesis
    by (simp add: fetch_species_data_parallel_def)
qed


lemma store_result_position:
  assumes "p < length (results st)" and "catchable r"
  shows "store_result st (IntLabel (int p)) r =
     Inr (st\<lparr>results := (results st)[p := slot_value r],
             failed_count := failed_count st + (if is_success r then 0 else 1),
             success_count := success_count st + (if is_success r then 1 else 0)\<rparr>)"
  using assms
  by (cases r)
    (simp_all add: store_result_def slot_value_def is_success_def catchable_def Let_def)

lemma collect_positions:
  assumes "list_all (\<lambda>p. p < length outs) ps" and "list_all catchable outs"
    and "length (results st) = length outs"
  shows "collect (map (\<lambda>p. (IntLabel (int p), outs ! p)) ps) st =
     Inr \<lparr>results = map (\<lambda>i. if i \<in> set ps then slot_value (outs ! i) else results st ! i)
                       [0..<length outs],
          failed_count = failed_count st + length (filter (\<lambda>p. \<not> is_success (outs ! p)) ps),
          success_count = success_count st + length (filter (\<lambda>p. is_success (outs ! p)) ps)\<rparr>"
  using assms
proof (induction ps arbitrary: st)
  case Nil
  from Nil.prems(3) map_nth [of "results st"]
  have "map (\<lambda>i. results st ! i) [0..<length outs] = results st"
    by simp
  then show ?case by simp
next
  case (Cons p ps)
  then have p: "p < length (results st)" by simp
  with Cons.prems have c: "catchable (outs ! p)"
    by (simp add: list_all_length)
  let ?st = "st\<lparr>results := (results st)[p := slot_value (outs ! p)],
      failed_count := failed_count st + (if is_success (outs ! p) then 0 else 1),
      success_count := success_count st + (if is_success (outs ! p) then 1 else 0)\<rparr>"
  have step: "store_result st (IntLabel (int p)) (outs ! p) = Inr ?st"
    by (rule store_result_position [OF p c])
  have rest: "list_all (\<lambda>p. p < length outs) ps" and len: "length (results ?st) = length outs"
    using Cons.prems by simp_all
  note ih = Cons.IH [OF rest Cons.prems(2) len]
  have res: "map (\<lambda>i. if i \<in> set ps then slot_value (outs ! i) else results ?st ! i)
               [0..<length outs] =
             map (\<lambda>i. if i \<in> set (p # ps) then slot_value (outs ! i) else results st ! i)
               [0..<length outs]"
    using Cons.prems(3) by (auto simp add: nth_list_update)
  show ?case
    using step ih res by (simp add: ac_simps)
qed

lemma count_by_position:
  assumes "distinct ps" and "set ps = {0..<length outs}"
  shows "length (filter (\<lambda>p. P (outs ! p)) ps) = length (filter P outs)"
proof -
  have "length (filter (\<lambda>p. P (outs ! p)) ps) = card ({p. P (outs ! p)} \<inter> {0..<length outs})"
    using assms by (simp add: distinct_length_filter)
  also have "\<dots> = length (filter (\<lambda>p. P (outs ! p)) [0..<length outs])"
    by (simp add: distinct_length_filter)
  also have "\<dots> = length (filter P (map (\<lambda>p. outs ! p) [0..<length outs]))"
    by (simp add: filter_map comp_def)
  also have "\<dots> = length (filter P outs)"
    by (simp add: map_nth)
  finally show ?thesis .
qed

lemma default_index_futures:
  assumes "default_index species_df" and "p < length species_df"
  shows "map (\<lambda>row. (label row, lookup (Genus row) (Species row))) species_df ! p =
     (IntLabel (int p), sequential_lookups lookup species_df ! p)"
proof -
  from assms have "label (species_df ! p) = IntLabel (int p)"
    unfolding default_index_def
    by (metis (no_types, lifting) add_0 length_map nth_map nth_upt)
  with assms(2) show ?thesis by (simp add: sequential_lookups_def)
qed

lemma is_completion_positions:
  "is_completion completion n \<Longrightarrow> list_all (\<lambda>p. p < n) completion"
  by (simp add: is_completion_def list_all_iff)

text \<open>
  Claim C1. Whatever the labels of the frame, the number of workers, the lookups (they
  may return \<^verbatim>\<open>None\<close> or raise) and the order of completion are: a list returned by
  \<^verbatim>\<open>fetch_species_data_parallel\<close> has the length of the frame. And the call does return
  such a list when there is at least one worker, every label is a position the list
  accepts, every exception of a lookup is an instance of \<^verbatim>\<open>Exception\<close>, and every future
  completes once.
\<close>

theorem fetch_returns_same_length:
  "(\<forall>rs s f. fetch_species_data_parallel lookup species_df max_workers completion =
        Inr (rs, s, f) \<longrightarrow> length rs = length species_df) \<and>
   (1 \<le> max_workers \<and>
    list_all (\<lambda>row. valid_label (length species_df) (label row) \<and>
                catchable (lookup (Genus row) (Species row))) species_df \<and>
    is_completion completion (length species_df) \<longrightarrow>
    (\<exists>rs s f. fetch_species_data_parallel lookup species_df max_workers completion =
        Inr (rs, s, f) \<and> length rs = length species_df))"
proof (intro conjI allI impI)
  fix rs s f
  assume "fetch_species_data_parallel lookup species_df max_workers completion = Inr (rs, s, f)"
  then show "length rs = length species_df" by (rule fetch_length)
next
  assume a: "1 \<le> max_workers \<and>
    list_all (\<lambda>row. valid_label (length species_df) (label row) \<and>
                catchable (lookup (Genus row) (Species row))) species_df \<and>
    is_completion completion (length species_df)"
  then have "list_all (\<lambda>p. p < length species_df) completion"
    by (simp add: is_completion_positions)
  with a fetch_total [of max_workers species_df lookup completion]
  obtain rs s f where
    r: "fetch_species_data_parallel lookup species_df max_workers completion = Inr (rs, s, f)"
    by blast
  from fetch_length [OF r] r
  show "\<exists>rs s f. fetch_species_data_parallel lookup species_df max_workers completion =
        Inr (rs, s, f) \<and> length rs = length species_df"
    by blast
qed

lemma fetch_sample_failing:
  "fetch_species_data_parallel mock_failing sample_df 2 [2, 0, 1] =
     Inr ([PDict [(''error'', PStr ''Unexpected error'')],
           PList [PDict [(''country'', PStr ''France'')]], PNone], 1, 2)"
  by (simp add: fetch_species_data_parallel_def sample_df_def mock_failing_def
      mock_response_def store_result_def isinstance_exc_def error_dict_def)

theorem fetch_returns_same_length_witness:
  "fetch_species_data_parallel mock_failing sample_df 2 [2, 0, 1] =
     Inr ([PDict [(''error'', PStr ''Unexpected error'')],
           PList [PDict [(''country'', PStr ''France'')]], PNone], 1, 2) \<and>
   length [PDict [(''error'', PStr ''Unexpected error'')],
           PList [PDict [(''country'', PStr ''France'')]], PNone] = length sample_df"
  using fetch_returns_same_length [of mock_failing sample_df 2 "[2, 0, 1]"]
    fetch_sample_failing
  by blast

text \<open>
  Claim C2 says that slot \<open>i\<close> of the result holds the lookup of the row at position
  \<open>i\<close>. The source stores under the index label of the row: for the frame whose rows
  carry the labels 1 and 0 the two results come back exchanged, in either order of
  completion, and differ from the lookups taken in input order.
\<close>

theorem fetch_relabelled_misplaced:
  "fetch_species_data_parallel mock_response relabelled_df 2 [0, 1] =
     Inr ([PList [PDict [(''country'', PStr ''France'')]],
           PList [PDict [(''country'', PStr ''Brazil'')]]], 2, 0) \<and>
   fetch_species_data_parallel mock_response relabelled_df 2 [1, 0] =
     Inr ([PList [PDict [(''country'', PStr ''France'')]],
           PList [PDict [(''country'', PStr ''Brazil'')]]], 2, 0) \<and>
   map slot_value (sequential_lookups mock_response relabelled_df) =
     [PList [PDict [(''country'', PStr ''Brazil'')]],
      PList [PDict [(''country'', PStr ''France'')]]]"
  by (simp add: fetch_species_data_parallel_def relabelled_df_def mock_response_def
      store_result_def sequential_lookups_def slot_value_def)

text \<open>
  Claim C5 says that an exception of one lookup ends as an error value in the slot of
  that item, the other slots holding their own results, and that the call returns. On
  the frame with the labels 1 and 0 the error of the first row is stored in the second
  slot; on the frame whose row carries the label 5 the call raises \<^verbatim>\<open>IndexError\<close>.
\<close>

theorem fetch_relabelled_error_misplaced:
  "fetch_species_data_parallel mock_failing relabelled_df 2 [0, 1] =
     Inr ([PList [PDict [(''country'', PStr ''France'')]],
           PDict [(''error'', PStr ''Unexpected error'')]], 1, 1) \<and>
   sequential_lookups mock_failing relabelled_df =
     [Inl (PyExc [Exception, BaseException] ''Unexpected error''),
      Inr (PList [PDict [(''country'', PStr ''France'')]])] \<and>
   fetch_species_data_parallel mock_failing filtered_df 2 [0] =
     Inl (index_error ''list assignment index out of range'')"
  by (simp add: fetch_species_data_parallel_def relabelled_df_def filtered_df_def
      mock_failing_def mock_response_def store_result_def sequential_lookups_def
      isinstance_exc_def error_dict_def index_error_def)

text \<open>
  On a frame with the default index the result is, for every order of completion, the
  list of the lookups in input order, an exception replaced by its error value; the two
  counts of the summary are the numbers of results that are not \<^verbatim>\<open>None\<close> and of the
  others.
\<close>

theorem fetch_default_index_refines:
  assumes "1 \<le> max_workers" and "default_index species_df"
    and "is_completion completion (length species_df)"
    and "list_all catchable (sequential_lookups lookup species_df)"
  shows "fetch_species_data_parallel lookup species_df max_workers completion =
     Inr (map slot_value (sequential_lookups lookup species_df),
          length (filter is_success (sequential_lookups lookup species_df)),
          length (filter (\<lambda>r. \<not> is_success r) (sequential_lookups lookup species_df)))"
proof -
  let ?outs = "sequential_lookups lookup species_df"
  let ?st = "\<lparr>results = replicate (length species_df) PNone, failed_count = 0,
              success_count = 0\<rparr>"
  have n: "length ?outs = length species_df" by (simp add: sequential_lookups_def)
  from assms(3) have d: "distinct completion" and s: "set completion = {0..<length ?outs}"
    by (simp_all add: is_completion_def n)
  from s have r: "list_all (\<lambda>p. p < length ?outs) completion"
    by (simp add: list_all_iff)
  have fs: "map (\<lambda>p. map (\<lambda>row. (label row, lookup (Genus row) (Species row))) species_df ! p)
      completion = map (\<lambda>p. (IntLabel (int p), ?outs ! p)) completion"
    using s default_index_futures [OF assms(2)] by (simp add: n)
  have all: "map (\<lambda>i. if i \<in> set completion then slot_value (?outs ! i) else results ?st ! i)
      [0..<length ?outs] = map slot_value ?outs"
  proof (rule nth_equalityI)
    show "length (map (\<lambda>i. if i \<in> set completion then slot_value (?outs ! i)
        else results ?st ! i) [0..<length ?outs]) = length (map slot_value ?outs)"
      by simp
  next
    fix i
    assume "i < length (map (\<lambda>i. if i \<in> set completion then slot_value (?outs ! i)
        else results ?st ! i) [0..<length ?outs])"
    then have "i < length ?outs" by simp
    with s show "map (\<lambda>i. if i \<in> set completion then slot_value (?outs ! i)
        else results ?st ! i) [0..<length ?outs] ! i = map slot_value ?outs ! i"
      by simp
  qed
  have "length (results ?st) = length ?outs" by (simp add: n)
  from collect_positions [OF r assms(4) this]
  have c: "collect (map (\<lambda>p. (IntLabel (int p), ?outs ! p)) completion) ?st =
     Inr \<lparr>results = map slot_value ?outs,
          failed_count = length (filter (\<lambda>r. \<not> is_success r) ?outs),
          success_count = length (filter is_success ?outs)\<rparr>"
    by (simp add: all count_by_position [OF d s, of is_success]
        count_by_position [OF d s, of "\<lambda>r. \<not> is_success r"])
  show ?thesis
    unfolding fetch_species_data_parallel_def Let_def fs c
    using assms(1) by simp
qed


theorem fetch_default_index_refines_witness:
  "fetch_species_data_parallel mock_failing sample_df 2 [2, 0, 1] =
     Inr ([PDict [(''error'', PStr ''Unexpected error'')],
           PList [PDict [(''country'', PStr ''France'')]], PNone], 1, 2)"
proof -
  have 1: "(1::int) \<le> 2" by simp
  have 2: "default_index sample_df"
    by (simp add: default_index_def sample_df_def upt_rec)
  have 3: "is_completion [2, 0, 1] (length sample_df)"
    by (auto simp add: is_completion_def sample_df_def)
  have 4: "list_all catchable (sequential_lookups mock_failing sample_df)"
    by (simp add: sequential_lookups_def sample_df_def mock_failing_def mock_response_def
        catchable_def isinstance_exc_def)
  from fetch_default_index_refines [OF 1 2 3 4] show ?thesis
    by (simp add: sequential_lookups_def sample_df_def mock_failing_def mock_response_def
        slot_value_def is_success_def error_dict_def)
qed

section \<open>Further properties\<close>

lemma list_setitem_invalid:
  "\<not> valid_label (length xs) idx \<Longrightarrow> \<exists>e. list_setitem xs idx v = Inl e \<and> isinstance_exc e Exception"
  by (cases idx)
    (auto simp add: Let_def isinstance_exc_def index_error_def type_error_def)

lemma store_result_invalid:
  assumes "\<not> valid_label (length (results st)) idx"
  shows "\<exists>e. store_result st idx r = Inl e"
proof (cases r)
  case (Inl e)
  from list_setitem_invalid [OF assms, of "error_dict e"] Inl show ?thesis
    by (auto simp add: store_result_def)
next
  case (Inr v)
  from list_setitem_invalid [OF assms, of v] obtain e where
    e: "list_setitem (results st) idx v = Inl e" "isinstance_exc e Exception" by blast
  from list_setitem_invalid [OF assms, of "error_dict e"] obtain e' where
    "list_setitem (results st) idx (error_dict e) = Inl e'" by blast
  with e Inr show ?thesis
    by (simp add: store_result_def)
qed

lemma collect_invalid:
  assumes "\<not> list_all (\<lambda>f. valid_label (length (results st)) (fst f)) fs"
  shows "\<exists>e. collect fs st = Inl e"
  using assms
proof (induction fs arbitrary: st)
  case Nil
  then show ?case by simp
next
  case (Cons f fs)
  obtain idx r where f: "f = (idx, r)" by (cases f)
  show ?case
  proof (cases "store_result st idx r")
    case (Inl e)
    with f show ?thesis by simp
  next
    case (Inr st1)
    from store_result_invalid [of st idx r] Inr
    have "valid_label (length (results st)) idx" by auto
    with Cons.prems f store_result_length [OF Inr]
    have "\<not> list_all (\<lambda>f. valid_label (length (results st1)) (fst f)) fs" by simp
    from Cons.IH [OF this] Inr f show ?thesis by simp
  qed
qed

text \<open>
  A frame with a label that is not a position of the result list makes
  \<^verbatim>\<open>fetch_species_data_parallel\<close> raise, whatever the lookups do: the store in the
  \<^verbatim>\<open>try\<close> block fails, and so does the store of the handler.
\<close>

theorem fetch_raises_on_foreign_label:
  assumes "is_completion completion (length species_df)"
    and "\<not> list_all (\<lambda>row. valid_label (length species_df) (label row)) species_df"
  shows "\<exists>e. fetch_species_data_parallel lookup species_df max_workers completion = Inl e"
proof -
  let ?fs = "map (\<lambda>row. (label row, lookup (Genus row) (Species row))) species_df"
  let ?st = "\<lparr>results = replicate (length species_df) PNone, failed_count = 0,
              success_count = 0\<rparr>"
  from assms(2) obtain p where p: "p < length species_df"
    and l: "\<not> valid_label (length species_df) (label (species_df ! p))"
    by (auto simp add: list_all_length)
  from assms(1) p have "p \<in> set completion" by (simp add: is_completion_def)
  moreover from p l have "\<not> valid_label (length species_df) (fst (?fs ! p))"
    by simp
  ultimately have "\<not> list_all (\<lambda>f. valid_label (length (results ?st)) (fst f))
      (map (\<lambda>p. ?fs ! p) completion)"
    unfolding list_all_iff by (simp del: nth_map) blast
  from collect_invalid [OF this] obtain e where
    "collect (map (\<lambda>p. ?fs ! p) completion) ?st = Inl e" ..
  then show ?thesis
    by (simp add: fetch_species_data_parallel_def)
qed

theorem fetch_raises_on_foreign_label_witness:
  "\<exists>e. fetch_species_data_parallel mock_response filtered_df 2 [0] = Inl e"
proof -
  have 1: "is_completion [0] (length filtered_df)"
    by (simp add: is_completion_def filtered_df_def)
  have 2: "\<not> list_all (\<lambda>row. valid_label (length filtered_df) (label row)) filtered_df"
    by (simp add: filtered_df_def)
  from fetch_raises_on_foreign_label [OF 1 2] show ?thesis .
qed

text \<open>
  An exception of the transport that is not an instance of \<^verbatim>\<open>Exception\<close> leaves both
  \<^verbatim>\<open>request_data\<close> and \<^verbatim>\<open>species_exists\<close>: their handlers do not catch it.
\<close>

theorem base_exception_propagates:
  assumes "transport_fault requests_get genus species = Some e"
    and "\<not> isinstance_exc e Exception" and "\<not> isinstance_exc e RequestException"
    and "\<not> isinstance_exc e KeyError" and "\<not> isinstance_exc e IndexError"
    and "\<not> isinstance_exc e ValueError" and "\<not> isinstance_exc e TypeError"
  shows "request_data requests_get genus species = Inl e \<and>
         species_exists requests_get genus species = Inl e"
  using request_data_try_fault [OF assms(1)] species_exists_try_fault [OF assms(1)] assms(2-)
  by (simp add: request_data_def species_exists_def)

theorem base_exception_propagates_witness:
  "request_data (\<lambda>url. Inl keyboard_interrupt) ''Abies'' ''alba'' = Inl keyboard_interrupt \<and>
   species_exists (\<lambda>url. Inl keyboard_interrupt) ''Abies'' ''alba'' = Inl keyboard_interrupt"
proof -
  have f: "transport_fault (\<lambda>url. Inl keyboard_interrupt) ''Abies'' ''alba'' =
      Some keyboard_interrupt"
    by (simp add: transport_fault_def)
  show ?thesis
    by (rule base_exception_propagates [OF f])
      (simp_all add: isinstance_exc_def keyboard_interrupt_def)
qed

text \<open>
  The columns of \<^verbatim>\<open>load_species_data\<close> without the split: \<^verbatim>\<open>Genus\<close> is the text before
  the first space of the name, \<^verbatim>\<open>Species\<close> the text after it up to the next space.
\<close>

theorem load_species_data_genus_species:
  assumes "load_species_data taxon_names = Inr rows" and "p < length taxon_names"
  shows "TaxonName (rows ! p) = taxon_names ! p \<and>
         CHR '' '' \<in> set (taxon_names ! p) \<and>
         Genus (rows ! p) = takeWhile (\<lambda>c. c \<noteq> CHR '' '') (taxon_names ! p) \<and>
         Species (rows ! p) =
           takeWhile (\<lambda>c. c \<noteq> CHR '' '')
             (tl (dropWhile (\<lambda>c. c \<noteq> CHR '' '') (taxon_names ! p)))"
proof -
  let ?fields = "\<lambda>x. split_sep (CHR '' '') x"
  from assms(1) have all: "list_all (\<lambda>x. 1 < length (?fields x)) taxon_names"
    and rows: "rows = map (\<lambda>p. \<lparr>label = IntLabel (int p),
                 Genus = map (\<lambda>x. ?fields x ! 0) taxon_names ! p,
                 Species = map (\<lambda>x. ?fields x ! 1) taxon_names ! p,
                 TaxonName = taxon_names ! p\<rparr>) [0..<length taxon_names]"
    unfolding load_species_data_def apply_series_getitem
    by (simp_all split: if_splits)
  from all assms(2) have "1 < length (?fields (taxon_names ! p))"
    by (simp add: list_all_length)
  then have "2 \<le> length (?fields (taxon_names ! p))"
    by simp
  then have sp: "CHR '' '' \<in> set (taxon_names ! p)"
    by (simp add: split_sep_two)
  from split_sep_second [OF sp]
  have s2: "?fields (taxon_names ! p) ! Suc 0 =
      takeWhile (\<lambda>c. c \<noteq> CHR '' '')
        (tl (dropWhile (\<lambda>c. c \<noteq> CHR '' '') (taxon_names ! p)))"
    by simp
  from rows assms(2) show ?thesis
    by (simp add: sp split_sep_first s2)
qed

theorem load_species_data_genus_species_witness:
  "Genus ([\<lparr>label = IntLabel 0, Genus = ''Abies'', Species = '''',
           TaxonName = ''Abies  alba''\<rparr>] ! 0) = takeWhile (\<lambda>c. c \<noteq> CHR '' '') ''Abies  alba''"
proof -
  have 1: "load_species_data [''Abies  alba''] =
     Inr [\<lparr>label = IntLabel 0, Genus = ''Abies'', Species = '''',
           TaxonName = ''Abies  alba''\<rparr>]"
    by (simp add: load_species_data_def list_getitem_def)
  have 2: "0 < length [''Abies  alba'']" by simp
  from load_species_data_genus_species [OF 1 2] show ?thesis by simp
qed


lemma tokens_from_word:
  "\<forall>c \<in> set w. \<not> is_space c \<Longrightarrow> tokens_from cur (w @ rest) = tokens_from (cur @ w) rest"
  by (induction w arbitrary: cur) simp_all

lemma takeWhile_until: "x \<notin> set xs \<Longrightarrow> takeWhile (\<lambda>c. c \<noteq> x) (xs @ x # ys) = xs"
  by (induction xs) auto

lemma dropWhile_until: "x \<notin> set xs \<Longrightarrow> dropWhile (\<lambda>c. c \<noteq> x) (xs @ x # ys) = x # ys"
  by (induction xs) auto

lemma takeWhile_all: "x \<notin> set xs \<Longrightarrow> takeWhile (\<lambda>c. c \<noteq> x) xs = xs"
  by (induction xs) auto

lemma is_space_blank: "is_space (CHR '' '')"
  by (simp add: is_space_def)

text \<open>
  For a name made of two words without whitespace in them, set apart by one space and
  followed by nothing or by a space and more text, the two fields of the split are the
  first two whitespace-separated tokens.
\<close>

theorem single_spaced_name_tokens:
  assumes "g \<noteq> []" and "s \<noteq> []"
    and "\<forall>c \<in> set g. \<not> is_space c" and "\<forall>c \<in> set s. \<not> is_space c"
    and "tail = [] \<or> (\<exists>t. tail = CHR '' '' # t)"
  shows "split_sep (CHR '' '') (g @ CHR '' '' # s @ tail) ! 0 = g \<and>
         split_sep (CHR '' '') (g @ CHR '' '' # s @ tail) ! 1 = s \<and>
         take 2 (whitespace_tokens (g @ CHR '' '' # s @ tail)) = [g, s]"
proof -
  let ?name = "g @ CHR '' '' # s @ tail"
  from assms(3) is_space_blank have ng: "CHR '' '' \<notin> set g" by blast
  from assms(4) is_space_blank have ns: "CHR '' '' \<notin> set s" by blast
  have sp: "CHR '' '' \<in> set ?name" by simp
  from ng have tw: "takeWhile (\<lambda>c. c \<noteq> CHR '' '') ?name = g"
    by (rule takeWhile_until)
  from ng have dw: "dropWhile (\<lambda>c. c \<noteq> CHR '' '') ?name = CHR '' '' # s @ tail"
    by (rule dropWhile_until)
  from ns assms(5) have tw2: "takeWhile (\<lambda>c. c \<noteq> CHR '' '') (s @ tail) = s"
    by (auto simp add: takeWhile_until takeWhile_all)
  have 1: "split_sep (CHR '' '') ?name ! 0 = g"
    by (simp only: split_sep_first tw)
  have 2: "split_sep (CHR '' '') ?name ! 1 = s"
    by (simp only: split_sep_second [OF sp] dw list.sel tw2)
  have "whitespace_tokens ?name = tokens_from g (CHR '' '' # s @ tail)"
    using tokens_from_word [OF assms(3), of "[]" "CHR '' '' # s @ tail"]
    by (simp add: whitespace_tokens_def)
  also have "\<dots> = g # tokens_from [] (s @ tail)"
    using assms(1) by (simp add: is_space_blank)
  also have "\<dots> = g # tokens_from s tail"
    using tokens_from_word [OF assms(4), of "[]" tail] by simp
  finally have "whitespace_tokens ?name = g # tokens_from s tail" .
  moreover from assms(2,5) have "take 1 (tokens_from s tail) = [s]"
    by (auto simp add: is_space_blank)
  ultimately have 3: "take 2 (whitespace_tokens ?name) = [g, s]"
    by (simp add: numeral_2_eq_2)
  from 1 2 3 show ?thesis by simp
qed

theorem single_spaced_name_tokens_witness:
  "split_sep (CHR '' '') ''Abies alba var. x'' ! 0 = ''Abies'' \<and>
   split_sep (CHR '' '') ''Abies alba var. x'' ! 1 = ''alba'' \<and>
   take 2 (whitespace_tokens ''Abies alba var. x'') = [''Abies'', ''alba'']"
proof -
  have "''Abies'' \<noteq> []" "''alba'' \<noteq> []"
    "\<forall>c \<in> set ''Abies''. \<not> is_space c" "\<forall>c \<in> set ''alba''. \<not> is_space c"
    "'' var. x'' = [] \<or> (\<exists>t. '' var. x'' = CHR '' '' # t)"
    by (simp_all add: is_space_def)
  from single_spaced_name_tokens [OF this] show ?thesis by simp
qed

end
